theory Spec2Isabelle
  imports Complex_Main
begin

section \<open>OM2Log2Heatmap: the log parser\<close>

text \<open>
  A shallow embedding of \<^verbatim>\<open>detect_num_roots\<close>, \<^verbatim>\<open>parse_ras_weights\<close> and the
  energy header of \<^verbatim>\<open>main\<close> from \<^verbatim>\<open>OM2Log2Heatmap.py\<close>.

  A log file is the list of its lines, as iterating the file object yields them (each
  line with its terminator). Text is ASCII: one \<open>char\<close> is one code point below 128.

  Python floats are IEEE doubles. The operations the program applies to them are taken
  as a parameter (\<open>float_ops\<close>), so every theorem below holds for each interpretation
  of them, the doubles included. \<open>dec_ops\<close> is one interpretation, exact on decimal
  literals, used to run the model on concrete logs.
\<close>

subsection \<open>Python strings\<close>

definition is_space :: "char \<Rightarrow> bool" where
  \<comment> \<open>\<^verbatim>\<open>str.isspace\<close> and the regular expression class \<^verbatim>\<open>\s\<close>, on ASCII\<close>
  "is_space c = (of_char c \<in> {9, 10, 11, 12, 13, 28, 29, 30, 31, 32 :: nat})"

definition is_digit :: "char \<Rightarrow> bool" where
  \<comment> \<open>the class \<^verbatim>\<open>\d\<close>, on ASCII\<close>
  "is_digit c = (48 \<le> (of_char c :: nat) \<and> (of_char c :: nat) \<le> 57)"

definition lower_char :: "char \<Rightarrow> char" where
  "lower_char c =
     (if 65 \<le> (of_char c :: nat) \<and> (of_char c :: nat) \<le> 90
      then char_of (of_char c + (32 :: nat)) else c)"

definition lower :: "string \<Rightarrow> string" where
  \<comment> \<open>\<^verbatim>\<open>str.lower\<close>\<close>
  "lower s = map lower_char s"

fun starts_with :: "string \<Rightarrow> string \<Rightarrow> bool" where
  "starts_with [] s = True"
| "starts_with (p # ps) [] = False"
| "starts_with (p # ps) (c # cs) = (p = c \<and> starts_with ps cs)"

fun py_in :: "string \<Rightarrow> string \<Rightarrow> bool" where
  \<comment> \<open>\<^verbatim>\<open>sub in s\<close>\<close>
  "py_in sub [] = (sub = [])"
| "py_in sub (c # cs) = (starts_with sub (c # cs) \<or> py_in sub cs)"

definition py_strip :: "string \<Rightarrow> string" where
  \<comment> \<open>\<^verbatim>\<open>str.strip()\<close>\<close>
  "py_strip s = rev (dropWhile is_space (rev (dropWhile is_space s)))"

fun split_from :: "string \<Rightarrow> string \<Rightarrow> string list" where
  \<comment> \<open>the tokens of the rest of the line, \<open>cur\<close> being the token read so far\<close>
  "split_from cur [] = (if cur = [] then [] else [cur])"
| "split_from cur (c # cs) =
     (if is_space c then (if cur = [] then split_from [] cs else cur # split_from [] cs)
      else split_from (cur @ [c]) cs)"

definition py_split :: "string \<Rightarrow> string list" where
  \<comment> \<open>\<^verbatim>\<open>str.split()\<close>: the maximal runs of non-whitespace characters\<close>
  "py_split s = split_from [] s"

subsection \<open>Exceptions\<close>

datatype error = ValueError | IndexError | KeyError | TypeError | StopIteration

subsection \<open>\<^verbatim>\<open>int(...)\<close>\<close>

fun digits_ok :: "string \<Rightarrow> bool" where
  \<comment> \<open>decimal digits, single underscores allowed between two digits\<close>
  "digits_ok [] = False"
| "digits_ok [c] = is_digit c"
| "digits_ok (c # d # cs) =
     (is_digit c \<and> (if d = CHR ''_'' then digits_ok cs else digits_ok (d # cs)))"

definition digit_val :: "char \<Rightarrow> int" where
  "digit_val c = int (of_char c) - 48"

definition digits_value :: "string \<Rightarrow> int" where
  "digits_value s = foldl (\<lambda>a c. 10 * a + digit_val c) 0 (filter is_digit s)"

definition py_int :: "string \<Rightarrow> int option" where
  \<comment> \<open>\<^verbatim>\<open>int(s)\<close> on a token without whitespace; \<open>None\<close> is \<^verbatim>\<open>ValueError\<close>.
      The interpreter's limit on the number of digits is not modelled.\<close>
  "py_int s =
     (case s of
        [] \<Rightarrow> None
      | c # cs \<Rightarrow>
          if c = CHR ''-'' then (if digits_ok cs then Some (- digits_value cs) else None)
          else if c = CHR ''+'' then (if digits_ok cs then Some (digits_value cs) else None)
          else if digits_ok s then Some (digits_value s) else None)"

subsection \<open>Floats\<close>

record 'f float_ops =
  py_float :: "string \<Rightarrow> 'f option"   \<comment> \<open>\<^verbatim>\<open>float(s)\<close>; \<open>None\<close> is \<^verbatim>\<open>ValueError\<close>\<close>
  f_abs :: "'f \<Rightarrow> 'f"                   \<comment> \<open>\<^verbatim>\<open>abs(x)\<close>\<close>
  f_ge :: "'f \<Rightarrow> 'f \<Rightarrow> bool"            \<comment> \<open>\<^verbatim>\<open>x >= y\<close>\<close>
  f_mul100 :: "'f \<Rightarrow> 'f"                \<comment> \<open>\<^verbatim>\<open>x * 100\<close>\<close>
  f_sub :: "'f \<Rightarrow> 'f \<Rightarrow> 'f"              \<comment> \<open>\<^verbatim>\<open>x - y\<close>\<close>
  f_to_eV :: "'f \<Rightarrow> 'f"                 \<comment> \<open>\<^verbatim>\<open>x * 27.2114\<close>\<close>
  f_truthy :: "'f \<Rightarrow> bool"              \<comment> \<open>the truth value of \<open>x\<close> in a condition\<close>

fun frac_value :: "string \<Rightarrow> rat" where
  "frac_value [] = 0"
| "frac_value (c # cs) = (of_int (digit_val c) + frac_value cs) / 10"

definition dec_unsigned :: "string \<Rightarrow> rat option" where
  \<comment> \<open>digits, optionally with one point; at least one digit\<close>
  "dec_unsigned s =
     (let ip = takeWhile is_digit s; r = dropWhile is_digit s
      in case r of
           [] \<Rightarrow> if ip = [] then None else Some (of_int (digits_value ip))
         | c # fp \<Rightarrow>
             if c = CHR ''.'' \<and> list_all is_digit fp \<and> (ip \<noteq> [] \<or> fp \<noteq> [])
             then Some (of_int (digits_value ip) + frac_value fp) else None)"

definition dec_float :: "string \<Rightarrow> rat option" where
  "dec_float s =
     (case s of
        [] \<Rightarrow> None
      | c # cs \<Rightarrow>
          if c = CHR ''-'' then map_option uminus (dec_unsigned cs)
          else if c = CHR ''+'' then dec_unsigned cs
          else dec_unsigned s)"

definition dec_ops :: "rat float_ops" where
  "dec_ops = \<lparr> py_float = dec_float, f_abs = abs, f_ge = (\<ge>),
               f_mul100 = (\<lambda>x. x * 100), f_sub = (-),
               f_to_eV = (\<lambda>x. x * (272114 / 10000)), f_truthy = (\<lambda>x. x \<noteq> 0) \<rparr>"

subsection \<open>The configuration-line pattern\<close>

definition is_occ :: "char \<Rightarrow> bool" where
  \<comment> \<open>the class \<^verbatim>\<open>[\dud\*]\<close>\<close>
  "is_occ c = (is_digit c \<or> c = CHR ''u'' \<or> c = CHR ''d'' \<or> c = CHR ''*'')"

definition is_coeff :: "char \<Rightarrow> bool" where
  \<comment> \<open>the class \<^verbatim>\<open>[-\d.]\<close>\<close>
  "is_coeff c = (c = CHR ''-'' \<or> is_digit c \<or> c = CHR ''.'')"

definition is_weight :: "char \<Rightarrow> bool" where
  \<comment> \<open>the class \<^verbatim>\<open>[\d.]\<close>\<close>
  "is_weight c = (is_digit c \<or> c = CHR ''.'')"

definition re_config :: "string \<Rightarrow> (string \<times> string \<times> string \<times> string) option" where
  \<comment> \<open>\<^verbatim>\<open>re.match(r'^\s*(\d+)\s+([\dud\*]+)\s+([-\d.]+)\s+([\d.]+)', s)\<close>: the four
      groups, or \<open>None\<close>. Each repetition is greedy and is followed by a class disjoint
      from its own (or by the end of the pattern), so giving back a character never
      helps: every repetition takes its maximal run.\<close>
  "re_config s =
     (let s0 = dropWhile is_space s;
          g1 = takeWhile is_digit s0; r1 = dropWhile is_digit s0;
          w1 = takeWhile is_space r1; r2 = dropWhile is_space r1;
          g2 = takeWhile is_occ r2; r3 = dropWhile is_occ r2;
          w2 = takeWhile is_space r3; r4 = dropWhile is_space r3;
          g3 = takeWhile is_coeff r4; r5 = dropWhile is_coeff r4;
          w3 = takeWhile is_space r5; r6 = dropWhile is_space r5;
          g4 = takeWhile is_weight r6
      in if g1 \<noteq> [] \<and> w1 \<noteq> [] \<and> g2 \<noteq> [] \<and> w2 \<noteq> [] \<and> g3 \<noteq> [] \<and> w3 \<noteq> [] \<and> g4 \<noteq> []
         then Some (g1, g2, g3, g4) else None)"

subsection \<open>\<^verbatim>\<open>detect_num_roots\<close>\<close>

datatype diag = Detected int | WarnCirootLine | WarnNoCiroot
  \<comment> \<open>the message printed: \<^verbatim>\<open>Detected n roots in ...\<close>,
      \<^verbatim>\<open>Warning: Could not parse ciroot line, defaulting to 7 roots\<close>,
      \<^verbatim>\<open>Warning: No ciroot found in log file, defaulting to 7 roots\<close>\<close>

fun detect_num_roots :: "string list \<Rightarrow> diag \<times> int option" where
  \<comment> \<open>the message printed and the value returned; \<open>None\<close> is Python's \<^verbatim>\<open>None\<close>,
      the value of the bare \<^verbatim>\<open>return\<close> that ends the function\<close>
  "detect_num_roots [] = (WarnNoCiroot, None)"
| "detect_num_roots (line # f) =
     (if py_in ''ciroot'' (lower line) then
        (case py_split line of
           a # b # c # rest \<Rightarrow>
             (case py_int c of
                Some num_roots \<Rightarrow> (Detected num_roots, Some num_roots)
              | None \<Rightarrow> (WarnCirootLine, Some 7))
         | _ \<Rightarrow> (WarnCirootLine, Some 7))
      else detect_num_roots f)"

subsection \<open>\<^verbatim>\<open>parse_ras_weights\<close>\<close>

record 'f root_record =
  configs :: "string \<rightharpoonup> 'f"
  energy :: "'f option"

type_synonym 'f root_table = "int \<rightharpoonup> 'f root_record"

record 'f pstate =
  roots :: "'f root_table"
  current_root :: int
  config_count :: int
  in_config_section :: bool

definition init_roots :: "int \<Rightarrow> 'f root_table" where
  \<comment> \<open>\<^verbatim>\<open>{i: {'configs': {}, 'energy': None} for i in range(1, num_roots+1)}\<close>\<close>
  "init_roots num_roots =
     (\<lambda>i. if 1 \<le> i \<and> i \<le> num_roots then Some \<lparr> configs = Map.empty, energy = None \<rparr>
          else None)"

definition energy_value :: "'f float_ops \<Rightarrow> string \<Rightarrow> 'f option" where
  \<comment> \<open>lines 77 to 79: \<^verbatim>\<open>float(next_line.split()[1])\<close> when the line contains
      \<^verbatim>\<open>energy=\<close>; \<open>None\<close> when it does not, or when the \<^verbatim>\<open>IndexError\<close> or
      \<^verbatim>\<open>ValueError\<close> is caught\<close>
  "energy_value ops next_line =
     (if py_in ''energy='' next_line then
        (case py_split next_line of
           a # b # rest \<Rightarrow> py_float ops b
         | _ \<Rightarrow> None)
      else None)"

definition energy_capture ::
  "'f float_ops \<Rightarrow> string \<Rightarrow> int \<Rightarrow> 'f root_table \<Rightarrow> error + 'f root_table" where
  \<comment> \<open>lines 77 to 82: the \<^verbatim>\<open>KeyError\<close> of \<^verbatim>\<open>roots[current_root]\<close> is not caught\<close>
  "energy_capture ops next_line r rs =
     (case energy_value ops next_line of
        None \<Rightarrow> Inr rs
      | Some e \<Rightarrow>
          (case rs r of
             None \<Rightarrow> Inl KeyError
           | Some rr \<Rightarrow> Inr (rs(r \<mapsto> rr\<lparr>energy := Some e\<rparr>))))"

definition config_line ::
  "'f float_ops \<Rightarrow> 'f \<Rightarrow> 'f pstate \<Rightarrow> string \<Rightarrow> error + 'f pstate" where
  \<comment> \<open>lines 87 to 113, for a line that is not a root-start line. The pattern is matched
      twice, as in the source: the first test leaves (\<^verbatim>\<open>continue\<close>) when it fails.\<close>
  "config_line ops threshold st line =
     (if in_config_section st \<and> current_root st > 0 then
        (if re_config (py_strip line) = None then Inr st
         else
           (case re_config (py_strip line) of
              Some (conf_num, conf, g3, g4) \<Rightarrow>
                if length conf \<noteq> 14 then Inr st
                else
                  (case py_float ops g3 of
                     None \<Rightarrow> Inr st
                   | Some coeff \<Rightarrow>
                       (case py_float ops g4 of
                          None \<Rightarrow> Inr st
                        | Some w \<Rightarrow>
                            if f_ge ops (f_abs ops coeff) threshold then
                              (case roots st (current_root st) of
                                 None \<Rightarrow> Inl KeyError
                               | Some rr \<Rightarrow>
                                   Inr (st\<lparr>roots := (roots st)(current_root st \<mapsto>
                                              rr\<lparr>configs := (configs rr)(conf \<mapsto> f_mul100 ops w)\<rparr>),
                                           config_count := config_count st + 1\<rparr>))
                            else Inr st))
            | None \<Rightarrow>
                if py_in ''Natural orbitals and occupation numbers'' line
                then Inr (st\<lparr>in_config_section := False\<rparr>)
                else if py_in ''----'' line \<or> py_in ''===='' line
                then Inr (st\<lparr>in_config_section := False\<rparr>)
                else Inr st))
      else Inr st)"

definition root_marker :: "string" where
  "root_marker = ''printout of CI-coefficients larger than''"

definition root_index :: "string \<Rightarrow> error + int" where
  \<comment> \<open>\<^verbatim>\<open>int(line.split()[-1])\<close>, outside any \<^verbatim>\<open>try\<close>\<close>
  "root_index line =
     (case py_split line of
        [] \<Rightarrow> Inl IndexError
      | t # ts \<Rightarrow> (case py_int (last (t # ts)) of None \<Rightarrow> Inl ValueError | Some r \<Rightarrow> Inr r))"

fun parse_loop ::
  "'f float_ops \<Rightarrow> 'f \<Rightarrow> 'f pstate \<Rightarrow> string list \<Rightarrow> error + 'f pstate" where
  \<comment> \<open>the \<^verbatim>\<open>for line in f\<close> loop; \<^verbatim>\<open>next(f)\<close> takes the following line from the
      same iterator and raises \<^verbatim>\<open>StopIteration\<close> when there is none\<close>
  "parse_loop ops threshold st [] = Inr st"
| "parse_loop ops threshold st (line # f) =
     (if py_in root_marker line then
        (case root_index line of
           Inl e \<Rightarrow> Inl e
         | Inr r \<Rightarrow>
             (case f of
                [] \<Rightarrow> Inl StopIteration
              | next_line # f' \<Rightarrow>
                  (case energy_capture ops next_line r (roots st) of
                     Inl e \<Rightarrow> Inl e
                   | Inr rs \<Rightarrow>
                       parse_loop ops threshold
                         (st\<lparr>roots := rs, current_root := r, config_count := 0,
                             in_config_section := True\<rparr>) f')))
      else
        (case config_line ops threshold st line of
           Inl e \<Rightarrow> Inl e
         | Inr st' \<Rightarrow> parse_loop ops threshold st' f))"

definition init_state :: "int \<Rightarrow> 'f pstate" where
  "init_state num_roots =
     \<lparr> roots = init_roots num_roots, current_root = 0, config_count = 0,
       in_config_section = False \<rparr>"

definition parse_ras_weights ::
  "'f float_ops \<Rightarrow> string list \<Rightarrow> 'f \<Rightarrow> error + 'f root_table" where
  \<comment> \<open>\<^verbatim>\<open>num_roots + 1\<close> raises \<^verbatim>\<open>TypeError\<close> when \<^verbatim>\<open>num_roots\<close> is \<^verbatim>\<open>None\<close>\<close>
  "parse_ras_weights ops log_file threshold =
     (case snd (detect_num_roots log_file) of
        None \<Rightarrow> Inl TypeError
      | Some num_roots \<Rightarrow>
          (case parse_loop ops threshold (init_state num_roots) log_file of
             Inl e \<Rightarrow> Inl e
           | Inr st \<Rightarrow> Inr (roots st)))"

subsection \<open>Reading a result\<close>

definition record_of :: "error + 'f root_table \<Rightarrow> int \<Rightarrow> 'f root_record option" where
  "record_of res r = (case res of Inl e \<Rightarrow> None | Inr rs \<Rightarrow> rs r)"

definition weight_of :: "error + 'f root_table \<Rightarrow> int \<Rightarrow> string \<Rightarrow> 'f option" where
  "weight_of res r conf = (case record_of res r of None \<Rightarrow> None | Some rr \<Rightarrow> configs rr conf)"

definition energy_of :: "error + 'f root_table \<Rightarrow> int \<Rightarrow> 'f option" where
  "energy_of res r = (case record_of res r of None \<Rightarrow> None | Some rr \<Rightarrow> energy rr)"

definition failure_of :: "error + 'a \<Rightarrow> error option" where
  "failure_of res = (case res of Inl e \<Rightarrow> Some e | Inr x \<Rightarrow> None)"

subsection \<open>The energy header of the report (\<^verbatim>\<open>main\<close>, lines 210 to 216)\<close>

datatype 'f shown = Shown 'f | ShownNone | ShownNA
  \<comment> \<open>what the energy line prints: the float, \<^verbatim>\<open>None\<close>, or \<^verbatim>\<open>N/A\<close>\<close>

definition energy_shown :: "'f root_table \<Rightarrow> int \<Rightarrow> 'f shown" where
  \<comment> \<open>\<^verbatim>\<open>roots.get(root, {}).get('energy', 'N/A')\<close>: the default is taken only when the
      key \<^verbatim>\<open>'energy'\<close> is missing, which is when the root has no record\<close>
  "energy_shown rs root_no =
     (case rs root_no of
        None \<Rightarrow> ShownNA
      | Some rr \<Rightarrow> (case energy rr of None \<Rightarrow> ShownNone | Some e \<Rightarrow> Shown e))"

definition energy_get :: "'f root_table \<Rightarrow> int \<Rightarrow> 'f option" where
  \<comment> \<open>\<^verbatim>\<open>roots.get(root, {}).get('energy')\<close>\<close>
  "energy_get rs root_no = (case rs root_no of None \<Rightarrow> None | Some rr \<Rightarrow> energy rr)"

definition energy_diff_line ::
  "'f float_ops \<Rightarrow> 'f root_table \<Rightarrow> 'f root_table \<Rightarrow> int \<Rightarrow> 'f option" where
  \<comment> \<open>the value printed by the line \<^verbatim>\<open>Energy Difference (eV)\<close>, \<open>None\<close> when the line
      is not written; \<^verbatim>\<open>if planar_energy and nonplanar_energy\<close> tests truth values\<close>
  "energy_diff_line ops planar_roots nonplanar_roots root_no =
     (case energy_get planar_roots root_no of
        None \<Rightarrow> None
      | Some planar_energy \<Rightarrow>
          if f_truthy ops planar_energy then
            (case energy_get nonplanar_roots root_no of
               None \<Rightarrow> None
             | Some nonplanar_energy \<Rightarrow>
                 if f_truthy ops nonplanar_energy
                 then Some (f_to_eV ops (f_sub ops nonplanar_energy planar_energy))
                 else None)
          else None)"

definition energy_shown_of :: "error + 'f root_table \<Rightarrow> int \<Rightarrow> error + 'f shown" where
  \<comment> \<open>the energy line of the report of a root, from the result of the parse\<close>
  "energy_shown_of res root_no =
     (case res of Inl e \<Rightarrow> Inl e | Inr rs \<Rightarrow> Inr (energy_shown rs root_no))"

definition energy_diff_of ::
  "'f float_ops \<Rightarrow> error + 'f root_table \<Rightarrow> error + 'f root_table \<Rightarrow> int \<Rightarrow> error + 'f option" where
  \<comment> \<open>the energy difference line, from the results of the two parses (planar first, as
      \<^verbatim>\<open>main\<close> parses them)\<close>
  "energy_diff_of ops planar nonplanar root_no =
     (case planar of
        Inl e \<Rightarrow> Inl e
      | Inr planar_roots \<Rightarrow>
          (case nonplanar of
             Inl e \<Rightarrow> Inl e
           | Inr nonplanar_roots \<Rightarrow>
               Inr (energy_diff_line ops planar_roots nonplanar_roots root_no)))"

subsection \<open>Vocabulary of the statements\<close>

abbreviation admits :: "'f float_ops \<Rightarrow> 'f \<Rightarrow> string \<Rightarrow> string \<Rightarrow> 'f \<Rightarrow> bool" where
  \<comment> \<open>the line matches the pattern with \<open>conf\<close> as its second field, its coefficient
      and weight parse, the coefficient passes the threshold, and \<open>w\<close> is the weight
      times 100\<close>
  "admits ops threshold line conf w \<equiv>
     (\<exists>conf_num g3 g4 coeff wt.
        re_config (py_strip line) = Some (conf_num, conf, g3, g4) \<and>
        py_float ops g3 = Some coeff \<and> py_float ops g4 = Some wt \<and>
        f_ge ops (f_abs ops coeff) threshold \<and> w = f_mul100 ops wt)"

fun energy_events :: "'f float_ops \<Rightarrow> string list \<Rightarrow> (int \<times> 'f) list" where
  \<comment> \<open>the energies the loop parses, in order, each with the root of its root-start
      line; the line after a root-start line is taken by \<^verbatim>\<open>next(f)\<close>\<close>
  "energy_events ops [] = []"
| "energy_events ops [line] = []"
| "energy_events ops (line # next_line # f) =
     (if py_in root_marker line then
        (case root_index line of
           Inl e \<Rightarrow> []
         | Inr r \<Rightarrow>
             (case energy_value ops next_line of None \<Rightarrow> [] | Some e \<Rightarrow> [(r, e)])
             @ energy_events ops f)
      else energy_events ops (next_line # f))"

definition energies_for :: "'f float_ops \<Rightarrow> int \<Rightarrow> string list \<Rightarrow> 'f list" where
  "energies_for ops r log_file = map snd (filter (\<lambda>p. fst p = r) (energy_events ops log_file))"

definition fewer_table :: "'f root_table \<Rightarrow> 'f root_table \<Rightarrow> bool" where
  \<comment> \<open>the same roots, and every configuration of the first recorded in the second\<close>
  "fewer_table rs2 rs1 =
     (dom rs2 = dom rs1 \<and>
      (\<forall>r rr2 rr1. rs2 r = Some rr2 \<longrightarrow> rs1 r = Some rr1 \<longrightarrow>
         dom (configs rr2) \<subseteq> dom (configs rr1)))"

definition fewer_configs :: "'f pstate \<Rightarrow> 'f pstate \<Rightarrow> bool" where
  \<comment> \<open>two states of the loop at the same line, at the same position in the state
      machine\<close>
  "fewer_configs st2 st1 =
     (current_root st2 = current_root st1 \<and>
      in_config_section st2 = in_config_section st1 \<and>
      fewer_table (roots st2) (roots st1))"

definition configs_of :: "error + 'f root_table \<Rightarrow> int \<Rightarrow> string set" where
  \<comment> \<open>the configuration strings recorded for a root\<close>
  "configs_of res r = (case record_of res r of None \<Rightarrow> {} | Some rr \<Rightarrow> dom (configs rr))"

subsection \<open>Logs\<close>

definition file_lines :: "string list \<Rightarrow> string list" where
  \<comment> \<open>what iterating the file yields: each line with its newline\<close>
  "file_lines ls = map (\<lambda>l. l @ [CHR 0x0A]) ls"

definition log_one_root :: "string list" where
  "log_one_root = file_lines
     [''ciroot = 1 1 1'',
      ''printout of CI-coefficients larger than  0.05 for root  1'',
      ''energy=    -100.5'',
      ''  1  22222220u00000  -0.950 0.902'',
      ''  2  2222222u000000   0.300 0.090'']"

definition log_dashes :: "string list" where
  \<comment> \<open>a configuration line after the line of dashes that closes the block\<close>
  "log_dashes = file_lines
     [''ciroot = 1 1 1'',
      ''printout of CI-coefficients larger than  0.05 for root  1'',
      ''energy=    -100.5'',
      ''  1  22222220u00000  -0.950 0.902'',
      ''----'',
      ''  7  222222200u0000   0.300 0.090'']"

definition log_no_ciroot :: "string list" where
  "log_no_ciroot = file_lines
     [''printout of CI-coefficients larger than  0.05 for root  1'',
      ''energy=    -100.5'',
      ''  1  22222220u00000  -0.950 0.902'']"

definition log_bad_root :: "string list" where
  \<comment> \<open>the last token of the root-start line is not an integer\<close>
  "log_bad_root = file_lines
     [''ciroot = 1 1 1'',
      ''printout of CI-coefficients larger than  0.05 for root  1.'',
      ''energy=    -100.5'',
      ''  1  22222220u00000  -0.950 0.902'']"

definition log_extra_root :: "string list" where
  \<comment> \<open>one root announced, a block for root 2\<close>
  "log_extra_root = file_lines
     [''ciroot = 1 1 1'',
      ''printout of CI-coefficients larger than  0.05 for root  2'',
      ''no energy here'',
      ''  1  22222220u00000  -0.950 0.902'']"

definition log_extra_root_energy :: "string list" where
  \<comment> \<open>one root announced, a block for root 2 with its energy\<close>
  "log_extra_root_energy = file_lines
     [''ciroot = 1 1 1'',
      ''printout of CI-coefficients larger than  0.05 for root  2'',
      ''energy=    -1.5'']"

definition log_extra_root_header :: "string list" where
  \<comment> \<open>one root announced, a block for root 2: no energy, the header of the table, a
      configuration line\<close>
  "log_extra_root_header = file_lines
     [''ciroot = 1 1 1'',
      ''printout of CI-coefficients larger than  0.05 for root  2'',
      ''no energy here'',
      ''  conf/sym  1111111 22222     Coeff  Weight'',
      ''  1  22222220u00000  -0.950 0.902'']"

definition log_two_blocks :: "string list" where
  \<comment> \<open>two blocks for root 1, each with its energy\<close>
  "log_two_blocks = file_lines
     [''ciroot = 1 1 1'',
      ''printout of CI-coefficients larger than  0.05 for root  1'',
      ''energy=    -1.5'',
      ''printout of CI-coefficients larger than  0.05 for root  1'',
      ''energy=    -2.5'']"

definition log_no_energy :: "string list" where
  "log_no_energy = file_lines
     [''ciroot = 1 1 1'',
      ''printout of CI-coefficients larger than  0.05 for root  1'',
      ''  1  22222220u00000  -0.950 0.902'',
      ''  2  2222222u000000   0.300 0.090'']"


definition log_zero_energy :: "string list" where
  "log_zero_energy = file_lines
     [''ciroot = 1 1 1'',
      ''printout of CI-coefficients larger than  0.05 for root  1'',
      ''energy=    0.0'',
      ''  1  22222220u00000  -0.950 0.902'']"

definition dashes_line :: "string" where
  "dashes_line = ''----'' @ [CHR 0x0A]"

definition open_section :: "rat pstate" where
  \<comment> \<open>the state inside the block of root 1\<close>
  "open_section = (init_state 1)\<lparr>current_root := 1, in_config_section := True\<rparr>"

section \<open>Properties\<close>

subsection \<open>Strings and the root-start line\<close>

lemma starts_with_first: "starts_with (p # ps) s \<Longrightarrow> p \<in> set s"
  by (cases s) auto

lemma py_in_first: "py_in (p # ps) s \<Longrightarrow> p \<in> set s"
  by (induction s) (auto dest: starts_with_first)

lemma split_from_nonempty:
  "cur \<noteq> [] \<or> (\<exists>c\<in>set s. \<not> is_space c) \<Longrightarrow> split_from cur s \<noteq> []"
  by (induction cur s rule: split_from.induct) auto

lemma marker_line_has_token: "py_in root_marker line \<Longrightarrow> py_split line \<noteq> []"
proof -
  assume "py_in root_marker line"
  then have "CHR ''p'' \<in> set line"
    unfolding root_marker_def by (rule py_in_first)
  moreover have "\<not> is_space CHR ''p''" by (simp add: is_space_def)
  ultimately show ?thesis
    unfolding py_split_def by (intro split_from_nonempty) blast
qed

text \<open>A line with the marker has a last token, so \<^verbatim>\<open>line.split()[-1]\<close> never raises
  \<^verbatim>\<open>IndexError\<close>: only \<^verbatim>\<open>int\<close> can fail.\<close>

lemma root_index_marker:
  "py_in root_marker line \<Longrightarrow>
     root_index line =
       (case py_int (last (py_split line)) of None \<Rightarrow> Inl ValueError | Some r \<Rightarrow> Inr r)"
  using marker_line_has_token[of line]
  by (auto simp: root_index_def split: list.splits)

subsection \<open>The section-end tests\<close>

lemma config_line_unmatched:
  "re_config (py_strip line) = None \<Longrightarrow> config_line ops t st line = Inr st"
  by (simp add: config_line_def)

lemma config_line_section:
  "config_line ops t st line = Inr st' \<Longrightarrow>
     in_config_section st' = in_config_section st \<and> current_root st' = current_root st"
  by (auto simp: config_line_def split: if_splits option.splits prod.splits)

text \<open>
  C1 (the code departs from the claim). The claim: inside a section, a line that does not
  match the configuration pattern and contains the natural-orbitals heading, or a run
  \<^verbatim>\<open>----\<close> or \<^verbatim>\<open>====\<close>, sets \<^verbatim>\<open>in_config_section\<close> to false. In the code a line
  that does not match the pattern leaves the loop body at the first test
  (\<^verbatim>\<open>continue\<close>), before the section-end tests, which hang on the second match of the
  same pattern and are never reached. Here: in the block of root 1 the line of four
  dashes does not match the pattern and contains \<^verbatim>\<open>----\<close>, yet it leaves the state as
  it was, the section still open; and in the log \<open>log_dashes\<close> the configuration line
  after the dashes is recorded for root 1.
\<close>

theorem dashes_leave_section_open:
  "in_config_section open_section \<and> 0 < current_root open_section \<and>
   re_config (py_strip dashes_line) = None \<and> py_in ''----'' dashes_line \<and>
   config_line dec_ops (1/5) open_section dashes_line = Inr open_section \<and>
   weight_of (parse_ras_weights dec_ops log_dashes (1/5)) 1 ''222222200u0000'' = Some 9"
proof -
  have a: "in_config_section open_section \<and> 0 < current_root open_section"
    by (simp add: open_section_def)
  have b: "re_config (py_strip dashes_line) = None" by code_simp
  have c: "py_in ''----'' dashes_line" by code_simp
  have d: "weight_of (parse_ras_weights dec_ops log_dashes (1/5)) 1 ''222222200u0000'' = Some 9"
    by code_simp
  from a b c d config_line_unmatched[OF b] show ?thesis by simp
qed

subsection \<open>The root count\<close>

lemma detect_no_ciroot:
  "\<forall>line\<in>set f. \<not> py_in ''ciroot'' (lower line) \<Longrightarrow> detect_num_roots f = (WarnNoCiroot, None)"
  by (induction f) auto

text \<open>
  C2 (the code departs from the claim). The claim: for a log with no line whose
  lowercase form contains \<^verbatim>\<open>ciroot\<close>, the detector returns 7 with a warning and the
  parse goes on with 7 roots. In the code the warning is printed (it says 7), but the
  function ends with a bare \<^verbatim>\<open>return\<close>: it returns \<^verbatim>\<open>None\<close>, and
  \<^verbatim>\<open>parse_ras_weights\<close> then fails with \<^verbatim>\<open>TypeError\<close> on \<^verbatim>\<open>num_roots+1\<close>, for
  every such log and every threshold.
\<close>

theorem no_ciroot_returns_none:
  assumes "\<forall>line\<in>set log_file. \<not> py_in ''ciroot'' (lower line)"
  shows "detect_num_roots log_file = (WarnNoCiroot, None) \<and>
         parse_ras_weights ops log_file threshold = Inl TypeError"
  using detect_no_ciroot[OF assms] by (simp add: parse_ras_weights_def)

theorem no_ciroot_returns_none_witness:
  "detect_num_roots log_no_ciroot = (WarnNoCiroot, None) \<and>
   parse_ras_weights dec_ops log_no_ciroot (1/5) = Inl TypeError"
proof -
  have "list_all (\<lambda>line. \<not> py_in ''ciroot'' (lower line)) log_no_ciroot"
    by code_simp
  then have "\<forall>line\<in>set log_no_ciroot. \<not> py_in ''ciroot'' (lower line)"
    by (simp add: list_all_iff)
  from no_ciroot_returns_none[OF this] show ?thesis .
qed

subsection \<open>A root index that is not an integer\<close>

text \<open>
  C3 (the code departs from the claim). The claim: a malformed numeric token never aborts
  the pass; a root-start line whose last token is not an integer is caught, logged and
  skipped. In the code \<^verbatim>\<open>int(line.split()[-1])\<close> stands outside any \<^verbatim>\<open>try\<close> (the
  energy, the coefficient, the weight and the \<^verbatim>\<open>ciroot\<close> count are each parsed inside
  one): whenever the loop reaches a line with the marker whose last token is not an
  integer, the pass ends there with \<^verbatim>\<open>ValueError\<close>, whatever follows.
\<close>

theorem bad_root_index_aborts:
  assumes "py_in root_marker line" and "py_int (last (py_split line)) = None"
  shows "parse_loop ops threshold st (line # f) = Inl ValueError"
  using assms by (simp add: root_index_marker)

theorem bad_root_index_aborts_witness:
  "parse_loop dec_ops (1/5) (init_state 1) (tl log_bad_root) = Inl ValueError \<and>
   failure_of (parse_ras_weights dec_ops log_bad_root (1/5)) = Some ValueError"
proof -
  let ?line = "''printout of CI-coefficients larger than  0.05 for root  1.'' @ [CHR 0x0A]"
  let ?f = "file_lines [''energy=    -100.5'', ''  1  22222220u00000  -0.950 0.902'']"
  have eq: "tl log_bad_root = ?line # ?f"
    by (simp add: log_bad_root_def file_lines_def)
  have m: "py_in root_marker ?line" by code_simp
  have b: "py_int (last (py_split ?line)) = None" by code_simp
  have w: "failure_of (parse_ras_weights dec_ops log_bad_root (1/5)) = Some ValueError"
    by code_simp
  from bad_root_index_aborts[OF m b, of dec_ops "1/5" "init_state 1" ?f] eq w
  show ?thesis by simp
qed

subsection \<open>What a recorded configuration is\<close>

lemma config_line_configs:
  assumes "config_line ops t st line = Inr st'"
    and "roots st' r = Some rr'" and "configs rr' c = Some w"
  shows "(\<exists>rr. roots st r = Some rr \<and> configs rr c = Some w) \<or>
         (length c = 14 \<and> admits ops t line c w)"
  using assms
  by (auto simp: config_line_def split: if_splits option.splits prod.splits)

lemma energy_capture_configs:
  assumes "energy_capture ops nl r rs = Inr rs'" and "rs' r' = Some rr'"
  shows "\<exists>rr. rs r' = Some rr \<and> configs rr = configs rr'"
  using assms
  by (auto simp: energy_capture_def split: if_splits option.splits)

lemma parse_loop_configs:
  assumes "parse_loop ops t st ls = Inr st'"
    and "roots st' r = Some rr'" and "configs rr' c = Some w"
  shows "(\<exists>rr. roots st r = Some rr \<and> configs rr c = Some w) \<or>
         (length c = 14 \<and> (\<exists>line\<in>set ls. admits ops t line c w))"
  using assms
proof (induction ops t st ls rule: parse_loop.induct)
  case (1 ops threshold st)
  then show ?case by simp
next
  case (2 ops threshold st line f)
  show ?case
  proof (cases "py_in root_marker line")
    case True
    from "2.prems"(1) True obtain r0 next_line f' rs where
      ri: "root_index line = Inr r0" and f: "f = next_line # f'"
      and ec: "energy_capture ops next_line r0 (roots st) = Inr rs"
      and lp: "parse_loop ops threshold
                 (st\<lparr>roots := rs, current_root := r0, config_count := 0,
                     in_config_section := True\<rparr>) f' = Inr st'"
      by (auto split: sum.splits list.splits)
    from "2.IH"(1)[OF True ri f ec lp "2.prems"(2,3)]
    show ?thesis
    proof
      assume "\<exists>rr. roots (st\<lparr>roots := rs, current_root := r0, config_count := 0,
                     in_config_section := True\<rparr>) r = Some rr \<and> configs rr c = Some w"
      then obtain rr where "rs r = Some rr" "configs rr c = Some w" by auto
      with energy_capture_configs[OF ec] show ?thesis by metis
    next
      assume "length c = 14 \<and> (\<exists>line\<in>set f'. admits ops threshold line c w)"
      then show ?thesis using f by auto
    qed
  next
    case False
    from "2.prems"(1) False obtain st1 where
      cl: "config_line ops threshold st line = Inr st1"
      and lp: "parse_loop ops threshold st1 f = Inr st'"
      by (auto split: sum.splits)
    from "2.IH"(2)[OF False cl lp "2.prems"(2,3)]
    show ?thesis
    proof
      assume "\<exists>rr. roots st1 r = Some rr \<and> configs rr c = Some w"
      then obtain rr where "roots st1 r = Some rr" "configs rr c = Some w" by auto
      from config_line_configs[OF cl this] show ?thesis by auto
    next
      assume "length c = 14 \<and> (\<exists>line\<in>set f. admits ops threshold line c w)"
      then show ?thesis by auto
    qed
  qed
qed

text \<open>
  C5. For every log, every threshold (the non-negative ones among them) and every root:
  a configuration string found in the root's \<^verbatim>\<open>configs\<close> after the parse has length
  exactly 14, and a line of the log admitted it: that line matches the pattern with the
  string as its second field, its coefficient \<open>coeff\<close> satisfies
  \<^verbatim>\<open>abs(coeff) >= threshold\<close>, and the stored weight is the line's fourth field times
  100.
\<close>

theorem accepted_configuration:
  assumes "weight_of (parse_ras_weights ops log_file threshold) r conf = Some w"
  shows "length conf = 14 \<and> (\<exists>line\<in>set log_file. admits ops threshold line conf w)"
proof -
  from assms obtain n st rr where
    lp: "parse_loop ops threshold (init_state n) log_file = Inr st"
    and rr: "roots st r = Some rr" "configs rr conf = Some w"
    by (auto simp: weight_of_def record_of_def parse_ras_weights_def
             split: option.splits sum.splits)
  from parse_loop_configs[OF lp rr] show ?thesis
    by (auto simp: init_state_def init_roots_def split: if_splits)
qed

theorem accepted_configuration_witness:
  "weight_of (parse_ras_weights dec_ops log_one_root (1/5)) 1 ''22222220u00000'' = Some (451/5) \<and>
   length ''22222220u00000'' = 14 \<and>
   (\<exists>line\<in>set log_one_root. admits dec_ops (1/5) line ''22222220u00000'' (451/5))"
proof -
  have h: "weight_of (parse_ras_weights dec_ops log_one_root (1/5)) 1 ''22222220u00000''
             = Some (451/5)"
    by code_simp
  from accepted_configuration[OF h] h show ?thesis by blast
qed

subsection \<open>The energy lines of the report\<close>

text \<open>
  C7 (the code departs from the claim). The claim: when both energies are present the
  report has the difference line, and a missing energy is shown as \<^verbatim>\<open>N/A\<close>. In the
  code the default \<^verbatim>\<open>'N/A'\<close> of \<^verbatim>\<open>.get('energy', 'N/A')\<close> is never taken for a root
  that has a record, since every record has the key \<^verbatim>\<open>'energy'\<close>: the unset energy of
  root 1 of \<open>log_no_energy\<close> is written as \<^verbatim>\<open>None\<close>. And the test
  \<^verbatim>\<open>if planar_energy and nonplanar_energy\<close> takes an energy of 0.0 for a missing one:
  with the energies 0.0 and -100.5 both present, no difference line is written.
\<close>

theorem unset_energy_shown_as_none:
  "energy_shown_of (parse_ras_weights dec_ops log_no_energy (1/5)) 1 = Inr ShownNone \<and>
   energy_of (parse_ras_weights dec_ops log_zero_energy (1/5)) 1 = Some 0 \<and>
   energy_of (parse_ras_weights dec_ops log_one_root (1/5)) 1 = Some (- (201 / 2)) \<and>
   energy_diff_of dec_ops (parse_ras_weights dec_ops log_zero_energy (1/5))
     (parse_ras_weights dec_ops log_one_root (1/5)) 1 = Inr None"
  by code_simp

subsection \<open>The roots and their energies\<close>

lemma config_line_dom:
  "config_line ops t st line = Inr st' \<Longrightarrow> dom (roots st') = dom (roots st)"
  by (auto simp: config_line_def split: if_splits option.splits prod.splits)

lemma energy_capture_dom:
  "energy_capture ops nl r rs = Inr rs' \<Longrightarrow> dom rs' = dom rs"
  by (auto simp: energy_capture_def split: option.splits if_splits)

lemma parse_loop_dom:
  "parse_loop ops t st ls = Inr st' \<Longrightarrow> dom (roots st') = dom (roots st)"
proof (induction ops t st ls rule: parse_loop.induct)
  case (1 ops threshold st)
  then show ?case by simp
next
  case (2 ops threshold st line f)
  show ?case
  proof (cases "py_in root_marker line")
    case True
    from "2.prems" True obtain r0 next_line f' rs where
      ri: "root_index line = Inr r0" and f: "f = next_line # f'"
      and ec: "energy_capture ops next_line r0 (roots st) = Inr rs"
      and lp: "parse_loop ops threshold
                 (st\<lparr>roots := rs, current_root := r0, config_count := 0,
                     in_config_section := True\<rparr>) f' = Inr st'"
      by (auto split: sum.splits list.splits)
    from "2.IH"(1)[OF True ri f ec lp] energy_capture_dom[OF ec]
    show ?thesis by simp
  next
    case False
    from "2.prems" False obtain st1 where
      cl: "config_line ops threshold st line = Inr st1"
      and lp: "parse_loop ops threshold st1 f = Inr st'"
      by (auto split: sum.splits)
    from "2.IH"(2)[OF False cl lp] config_line_dom[OF cl]
    show ?thesis by simp
  qed
qed

lemma config_line_energy:
  "config_line ops t st line = Inr st' \<Longrightarrow> energy_get (roots st') r = energy_get (roots st) r"
  by (auto simp: config_line_def energy_get_def split: if_splits option.splits prod.splits)

lemma energy_capture_energy:
  "energy_capture ops nl r rs = Inr rs' \<Longrightarrow>
     energy_get rs' r' =
       (case energy_value ops nl of
          None \<Rightarrow> energy_get rs r'
        | Some e \<Rightarrow> if r' = r then Some e else energy_get rs r')"
  by (auto simp: energy_capture_def energy_get_def split: option.splits)

lemma energy_events_skip:
  "\<not> py_in root_marker line \<Longrightarrow> energy_events ops (line # f) = energy_events ops f"
  by (cases f) auto

lemma energies_for_skip:
  "\<not> py_in root_marker line \<Longrightarrow> energies_for ops r (line # f) = energies_for ops r f"
  by (simp add: energies_for_def energy_events_skip)

lemma energies_for_block:
  "py_in root_marker line \<Longrightarrow> root_index line = Inr r0 \<Longrightarrow>
     energies_for ops r (line # next_line # f) =
       (case energy_value ops next_line of
          None \<Rightarrow> []
        | Some e \<Rightarrow> if r0 = r then [e] else []) @ energies_for ops r f"
  by (simp add: energies_for_def split: option.splits)

lemma parse_loop_energy:
  "parse_loop ops t st ls = Inr st' \<Longrightarrow>
     energy_get (roots st') r =
       (if energies_for ops r ls = [] then energy_get (roots st) r
        else Some (last (energies_for ops r ls)))"
proof (induction ops t st ls rule: parse_loop.induct)
  case (1 ops threshold st)
  then show ?case by (simp add: energies_for_def)
next
  case (2 ops threshold st line f)
  show ?case
  proof (cases "py_in root_marker line")
    case True
    from "2.prems" True obtain r0 next_line f' rs where
      ri: "root_index line = Inr r0" and f: "f = next_line # f'"
      and ec: "energy_capture ops next_line r0 (roots st) = Inr rs"
      and lp: "parse_loop ops threshold
                 (st\<lparr>roots := rs, current_root := r0, config_count := 0,
                     in_config_section := True\<rparr>) f' = Inr st'"
      by (auto split: sum.splits list.splits)
    from "2.IH"(1)[OF True ri f ec lp]
    have ih: "energy_get (roots st') r =
       (if energies_for ops r f' = [] then energy_get rs r
        else Some (last (energies_for ops r f')))" by simp
    show ?thesis
      unfolding f energies_for_block[OF True ri] ih energy_capture_energy[OF ec]
      by (auto split: option.splits)
  next
    case False
    from "2.prems" False obtain st1 where
      cl: "config_line ops threshold st line = Inr st1"
      and lp: "parse_loop ops threshold st1 f = Inr st'"
      by (auto split: sum.splits)
    from "2.IH"(2)[OF False cl lp] config_line_energy[OF cl]
    show ?thesis by (simp add: energies_for_skip[OF False])
  qed
qed

lemma energy_of_Inr: "energy_of (Inr rs) r = energy_get rs r"
  by (simp add: energy_of_def record_of_def energy_get_def)

text \<open>
  C6 (amended). The claim has the energy of a root set at most once, by the first energy
  line met for it. The code assigns it at every root-start block whose following line
  gives an energy, with no test of what is already there. As amended: after a parse that
  completes, the energy of a root is the energy parsed at the last root-start block of
  that root whose following line contains \<^verbatim>\<open>energy=\<close> and has a second token that
  parses as a float (a later block replaces an energy already set, a block without such
  a line leaves it as it is), and the energy is unset when the log has no such block for
  the root.
\<close>

theorem last_energy_wins:
  assumes "failure_of (parse_ras_weights ops log_file threshold) = None"
  shows "energy_of (parse_ras_weights ops log_file threshold) r =
           (if energies_for ops r log_file = [] then None
            else Some (last (energies_for ops r log_file)))"
proof -
  from assms obtain n st where
    lp: "parse_loop ops threshold (init_state n) log_file = Inr st"
    and res: "parse_ras_weights ops log_file threshold = Inr (roots st)"
    by (auto simp: failure_of_def parse_ras_weights_def split: option.splits sum.splits)
  have "energy_get (roots (init_state n :: 'a pstate)) r = None"
    by (simp add: energy_get_def init_state_def init_roots_def)
  with parse_loop_energy[OF lp, of r] show ?thesis
    by (simp add: res energy_of_Inr)
qed

theorem last_energy_wins_witness:
  "failure_of (parse_ras_weights dec_ops log_two_blocks (1/5)) = None \<and>
   energy_of (parse_ras_weights dec_ops log_two_blocks (1/5)) 1 =
     (if energies_for dec_ops 1 log_two_blocks = [] then None
      else Some (last (energies_for dec_ops 1 log_two_blocks))) \<and>
   energies_for dec_ops 1 log_no_energy = [] \<and>
   energy_of (parse_ras_weights dec_ops log_no_energy (1/5)) 1 = None"
proof -
  have h: "failure_of (parse_ras_weights dec_ops log_two_blocks (1/5)) = None" by code_simp
  have h2: "failure_of (parse_ras_weights dec_ops log_no_energy (1/5)) = None" by code_simp
  have e2: "energies_for dec_ops 1 log_no_energy = []" by code_simp
  from last_energy_wins[OF h, of 1] last_energy_wins[OF h2, of 1] h e2 show ?thesis by simp
qed

text \<open>
  C6 as stated fails: \<open>log_two_blocks\<close> has two blocks for root 1, the first with energy
  -1.5, the second with -2.5. The parse completes and the energy of root 1 is -2.5, the
  later one, not the first.
\<close>

theorem later_block_replaces_energy:
  "failure_of (parse_ras_weights dec_ops log_two_blocks (1/5)) = None \<and>
   energies_for dec_ops 1 log_two_blocks = [- (3/2), - (5/2)] \<and>
   energy_of (parse_ras_weights dec_ops log_two_blocks (1/5)) 1 = Some (- (5/2)) \<and>
   energy_of (parse_ras_weights dec_ops log_two_blocks (1/5)) 1 \<noteq> Some (- (3/2))"
  by code_simp

subsection \<open>Raising the threshold\<close>

lemma energy_capture_fewer:
  assumes "fewer_table rs2 rs1" and "energy_capture ops nl r rs1 = Inr rs1'"
  shows "\<exists>rs2'. energy_capture ops nl r rs2 = Inr rs2' \<and> fewer_table rs2' rs1'"
proof (cases "energy_value ops nl")
  case None
  with assms show ?thesis by (simp add: energy_capture_def)
next
  case (Some e)
  with assms(2) obtain rr1 where r1: "rs1 r = Some rr1"
    and rs1': "rs1' = rs1(r \<mapsto> rr1\<lparr>energy := Some e\<rparr>)"
    by (auto simp: energy_capture_def split: option.splits)
  from r1 assms(1) obtain rr2 where r2: "rs2 r = Some rr2"
    unfolding fewer_table_def by (metis domD domI)
  have "fewer_table (rs2(r \<mapsto> rr2\<lparr>energy := Some e\<rparr>)) rs1'"
    using assms(1) r1 r2 unfolding fewer_table_def rs1' by auto
  with Some r2 show ?thesis by (simp add: energy_capture_def)
qed

lemma fewer_table_update:
  assumes "fewer_table rs2 rs1" and "rs1 r = Some rr1" and "rs2 r = Some rr2"
    and "dom (configs rr2') \<subseteq> dom (configs rr1')"
  shows "fewer_table (rs2(r \<mapsto> rr2')) (rs1(r \<mapsto> rr1'))"
  using assms unfolding fewer_table_def by (auto split: if_splits)

lemma fewer_table_configs:
  "fewer_table rs2 rs1 \<Longrightarrow> rs2 r = Some rr2 \<Longrightarrow> rs1 r = Some rr1 \<Longrightarrow>
     dom (configs rr2) \<subseteq> dom (configs rr1)"
  unfolding fewer_table_def by blast

lemma fewer_table_more:
  assumes "fewer_table rs2 rs1" and "rs1 r = Some rr1"
  shows "fewer_table rs2 (rs1(r \<mapsto> rr1\<lparr>configs := (configs rr1)(conf \<mapsto> w)\<rparr>))"
proof -
  from assms obtain rr2 where r2: "rs2 r = Some rr2"
    unfolding fewer_table_def by (metis domD domI)
  have "dom (configs rr2) \<subseteq> dom (configs (rr1\<lparr>configs := (configs rr1)(conf \<mapsto> w)\<rparr>))"
    using fewer_table_configs[OF assms(1) r2 assms(2)] by auto
  from fewer_table_update[OF assms(1,2) r2 this] r2 show ?thesis
    by (simp add: fun_upd_idem)
qed

lemma config_line_cases:
  assumes "config_line ops t st line = Inr st'"
  shows "st' = st \<or>
         (\<exists>rr conf w. roots st (current_root st) = Some rr \<and>
            st' = st\<lparr>roots := (roots st)(current_root st \<mapsto>
                          rr\<lparr>configs := (configs rr)(conf \<mapsto> w)\<rparr>),
                      config_count := config_count st + 1\<rparr>)"
  using assms
  by (auto simp: config_line_def split: if_splits option.splits prod.splits)

lemma config_line_fewer:
  assumes trans: "\<forall>a b c. f_ge ops a b \<longrightarrow> f_ge ops b c \<longrightarrow> f_ge ops a c"
    and ge: "f_ge ops t2 t1"
    and R: "fewer_configs st2 st1"
    and cl: "config_line ops t1 st1 line = Inr st1'"
  shows "\<exists>st2'. config_line ops t2 st2 line = Inr st2' \<and> fewer_configs st2' st1'"
proof -
  from R have cr: "current_root st2 = current_root st1"
    and sec: "in_config_section st2 = in_config_section st1"
    and T: "fewer_table (roots st2) (roots st1)"
    by (simp_all add: fewer_configs_def)
  have keep: "fewer_configs st2 st1'"
  proof -
    from config_line_cases[OF cl] show ?thesis
    proof
      assume "st1' = st1"
      with R show ?thesis by simp
    next
      assume "\<exists>rr conf w. roots st1 (current_root st1) = Some rr \<and>
            st1' = st1\<lparr>roots := (roots st1)(current_root st1 \<mapsto>
                          rr\<lparr>configs := (configs rr)(conf \<mapsto> w)\<rparr>),
                      config_count := config_count st1 + 1\<rparr>"
      then obtain rr conf w where r1: "roots st1 (current_root st1) = Some rr"
        and s: "st1' = st1\<lparr>roots := (roots st1)(current_root st1 \<mapsto>
                          rr\<lparr>configs := (configs rr)(conf \<mapsto> w)\<rparr>),
                      config_count := config_count st1 + 1\<rparr>" by blast
      from fewer_table_more[OF T r1] show ?thesis
        by (simp add: s fewer_configs_def cr sec)
    qed
  qed
  show ?thesis
  proof (cases "\<exists>conf_num conf g3 g4 coeff w.
                  in_config_section st2 \<and> current_root st2 > 0 \<and>
                  re_config (py_strip line) = Some (conf_num, conf, g3, g4) \<and>
                  length conf = 14 \<and> py_float ops g3 = Some coeff \<and>
                  py_float ops g4 = Some w \<and> f_ge ops (f_abs ops coeff) t2")
    case False
    then have "config_line ops t2 st2 line = Inr st2"
      by (auto simp: config_line_def split: option.splits prod.splits)
    with keep show ?thesis by simp
  next
    case True
    then obtain conf_num conf g3 g4 coeff w where
      a: "in_config_section st2" "current_root st2 > 0"
         "re_config (py_strip line) = Some (conf_num, conf, g3, g4)"
         "length conf = 14" "py_float ops g3 = Some coeff" "py_float ops g4 = Some w"
         "f_ge ops (f_abs ops coeff) t2"
      by blast
    from trans a(7) ge have ge1: "f_ge ops (f_abs ops coeff) t1" by blast
    from cl a ge1 cr sec obtain rr1 where
      r1: "roots st1 (current_root st1) = Some rr1"
      and st1': "st1' = st1\<lparr>roots := (roots st1)(current_root st1 \<mapsto>
                          rr1\<lparr>configs := (configs rr1)(conf \<mapsto> f_mul100 ops w)\<rparr>),
                        config_count := config_count st1 + 1\<rparr>"
      by (auto simp: config_line_def split: option.splits)
    from r1 T obtain rr2 where r2: "roots st2 (current_root st1) = Some rr2"
      unfolding fewer_table_def by (metis domD domI)
    let ?st2' = "st2\<lparr>roots := (roots st2)(current_root st2 \<mapsto>
                          rr2\<lparr>configs := (configs rr2)(conf \<mapsto> f_mul100 ops w)\<rparr>),
                        config_count := config_count st2 + 1\<rparr>"
    have "config_line ops t2 st2 line = Inr ?st2'"
      using a r2 cr by (simp add: config_line_def)
    moreover have "fewer_configs ?st2' st1'"
    proof -
      have "dom (configs (rr2\<lparr>configs := (configs rr2)(conf \<mapsto> f_mul100 ops w)\<rparr>))
              \<subseteq> dom (configs (rr1\<lparr>configs := (configs rr1)(conf \<mapsto> f_mul100 ops w)\<rparr>))"
        using fewer_table_configs[OF T r2 r1] by auto
      from fewer_table_update[OF T r1 r2 this] show ?thesis
        by (simp add: st1' fewer_configs_def cr sec)
    qed
    ultimately show ?thesis by blast
  qed
qed

lemma parse_loop_fewer:
  "\<forall>a b c. f_ge ops a b \<longrightarrow> f_ge ops b c \<longrightarrow> f_ge ops a c \<Longrightarrow> f_ge ops t2 t1 \<Longrightarrow>
   fewer_configs st2 st1 \<Longrightarrow> parse_loop ops t1 st1 ls = Inr st1' \<Longrightarrow>
     \<exists>st2'. parse_loop ops t2 st2 ls = Inr st2' \<and> fewer_configs st2' st1'"
proof (induction ops t1 st1 ls arbitrary: st2 rule: parse_loop.induct)
  case (1 ops threshold st)
  then show ?case by simp
next
  case (2 ops threshold st line f)
  note tr = "2.prems"(1) and ge = "2.prems"(2) and R = "2.prems"(3) and run = "2.prems"(4)
  show ?case
  proof (cases "py_in root_marker line")
    case True
    from run True obtain r0 next_line f' rs where
      ri: "root_index line = Inr r0" and f: "f = next_line # f'"
      and ec: "energy_capture ops next_line r0 (roots st) = Inr rs"
      and lp: "parse_loop ops threshold
                 (st\<lparr>roots := rs, current_root := r0, config_count := 0,
                     in_config_section := True\<rparr>) f' = Inr st1'"
      by (auto split: sum.splits list.splits)
    from R have "fewer_table (roots st2) (roots st)" by (simp add: fewer_configs_def)
    from energy_capture_fewer[OF this ec] obtain rs2 where
      ec2: "energy_capture ops next_line r0 (roots st2) = Inr rs2" and T: "fewer_table rs2 rs"
      by blast
    let ?s2 = "st2\<lparr>roots := rs2, current_root := r0, config_count := 0,
                   in_config_section := True\<rparr>"
    have "fewer_configs ?s2 (st\<lparr>roots := rs, current_root := r0, config_count := 0,
                     in_config_section := True\<rparr>)"
      using T by (simp add: fewer_configs_def)
    from "2.IH"(1)[OF True ri f ec tr ge this lp] obtain st2' where
      "parse_loop ops t2 ?s2 f' = Inr st2'" "fewer_configs st2' st1'" by blast
    then show ?thesis using True ri f ec2 by auto
  next
    case False
    from run False obtain sa where
      cl: "config_line ops threshold st line = Inr sa"
      and lp: "parse_loop ops threshold sa f = Inr st1'"
      by (auto split: sum.splits)
    from config_line_fewer[OF tr ge R cl] obtain sb where
      cl2: "config_line ops t2 st2 line = Inr sb" and R': "fewer_configs sb sa" by blast
    from "2.IH"(2)[OF False cl tr ge R' lp] obtain st2' where
      "parse_loop ops t2 sb f = Inr st2'" "fewer_configs st2' st1'" by blast
    then show ?thesis using False cl2 by auto
  qed
qed

lemma configs_of_iff: "conf \<in> configs_of res r \<longleftrightarrow> weight_of res r conf \<noteq> None"
  by (auto simp: configs_of_def weight_of_def split: option.splits)

text \<open>
  C8. For every log, every root and thresholds \<open>t1 \<le> t2\<close> (as floats compare:
  \<^verbatim>\<open>t2 >= t1\<close>, the comparison being transitive, as it is on doubles): when the parse
  with \<open>t1\<close> completes, so does the parse with \<open>t2\<close>, and the configuration strings
  it records for the root are among those recorded with \<open>t1\<close>. Raising the threshold
  only removes configurations.
\<close>

theorem raising_threshold_only_removes:
  assumes "\<And>a b c. f_ge ops a b \<Longrightarrow> f_ge ops b c \<Longrightarrow> f_ge ops a c"
    and "f_ge ops t2 t1"
    and "failure_of (parse_ras_weights ops log_file t1) = None"
  shows "failure_of (parse_ras_weights ops log_file t2) = None \<and>
         configs_of (parse_ras_weights ops log_file t2) r
           \<subseteq> configs_of (parse_ras_weights ops log_file t1) r"
proof -
  from assms(3) obtain n st1 where
    d: "snd (detect_num_roots log_file) = Some n"
    and lp: "parse_loop ops t1 (init_state n) log_file = Inr st1"
    by (auto simp: failure_of_def parse_ras_weights_def split: option.splits sum.splits)
  have R0: "fewer_configs (init_state n :: 'a pstate) (init_state n)"
    by (simp add: fewer_configs_def fewer_table_def)
  have tr: "\<forall>a b c. f_ge ops a b \<longrightarrow> f_ge ops b c \<longrightarrow> f_ge ops a c"
    using assms(1) by blast
  from parse_loop_fewer[OF tr assms(2) R0 lp] obtain st2 where
    lp2: "parse_loop ops t2 (init_state n) log_file = Inr st2"
    and R: "fewer_configs st2 st1" by blast
  have r1: "parse_ras_weights ops log_file t1 = Inr (roots st1)"
    and r2: "parse_ras_weights ops log_file t2 = Inr (roots st2)"
    using d lp lp2 by (simp_all add: parse_ras_weights_def)
  from R have "configs_of (Inr (roots st2)) r \<subseteq> configs_of (Inr (roots st1)) r"
    unfolding fewer_configs_def fewer_table_def configs_of_def record_of_def
    by (auto split: option.splits)
  then show ?thesis by (simp add: r1 r2 failure_of_def)
qed

theorem raising_threshold_only_removes_witness:
  "failure_of (parse_ras_weights dec_ops log_one_root (1/2)) = None \<and>
   configs_of (parse_ras_weights dec_ops log_one_root (1/2)) 1
     \<subseteq> configs_of (parse_ras_weights dec_ops log_one_root (1/5)) 1 \<and>
   ''22222220u00000'' \<in> configs_of (parse_ras_weights dec_ops log_one_root (1/2)) 1 \<and>
   ''2222222u000000'' \<in> configs_of (parse_ras_weights dec_ops log_one_root (1/5)) 1 \<and>
   ''2222222u000000'' \<notin> configs_of (parse_ras_weights dec_ops log_one_root (1/2)) 1"
proof -
  have tr: "\<And>a b c. f_ge dec_ops a b \<Longrightarrow> f_ge dec_ops b c \<Longrightarrow> f_ge dec_ops a c"
    by (simp add: dec_ops_def)
  have ge: "f_ge dec_ops (1/2) (1/5)" by (simp add: dec_ops_def)
  have ok: "failure_of (parse_ras_weights dec_ops log_one_root (1/5)) = None" by code_simp
  have a: "weight_of (parse_ras_weights dec_ops log_one_root (1/2)) 1 ''22222220u00000'' \<noteq> None"
    by code_simp
  have b: "weight_of (parse_ras_weights dec_ops log_one_root (1/5)) 1 ''2222222u000000'' \<noteq> None"
    by code_simp
  have c: "weight_of (parse_ras_weights dec_ops log_one_root (1/2)) 1 ''2222222u000000'' = None"
    by code_simp
  from raising_threshold_only_removes[OF tr ge ok, where r = 1] a b c
  show ?thesis by (simp add: configs_of_iff)
qed

subsection \<open>Roots beyond the root count\<close>

lemma energy_capture_unknown:
  "rs r = None \<Longrightarrow>
     energy_capture ops nl r rs =
       (case energy_value ops nl of None \<Rightarrow> Inr rs | Some e \<Rightarrow> Inl KeyError)"
  by (simp add: energy_capture_def split: option.splits)

lemma config_line_unknown:
  assumes "in_config_section st" and "0 < current_root st"
    and "roots st (current_root st) = None"
    and "length conf = 14" and "admits ops t line conf w"
  shows "config_line ops t st line = Inl KeyError"
  using assms by (auto simp: config_line_def)

lemma config_line_unknown_stays:
  assumes "roots st (current_root st) = None"
  shows "config_line ops t st line = Inl KeyError \<or> config_line ops t st line = Inr st"
  using assms
  by (auto simp: config_line_def split: option.splits prod.splits)

text \<open>Inside the block of a root without a record, the lines before the first admitted
  configuration line change nothing (or fail already), and that line fails.\<close>

lemma unknown_block_key_error:
  assumes "in_config_section st" and "0 < current_root st"
    and "roots st (current_root st) = None"
    and "\<forall>l\<in>set mid. \<not> py_in root_marker l" and "\<not> py_in root_marker l2"
    and "length conf = 14" and "admits ops t l2 conf w"
  shows "parse_loop ops t st (mid @ l2 # f) = Inl KeyError"
  using assms(4)
proof (induction mid)
  case Nil
  from config_line_unknown[OF assms(1,2,3,6,7)] assms(5) show ?case by simp
next
  case (Cons l mid)
  then have nm: "\<not> py_in root_marker l" and ih: "parse_loop ops t st (mid @ l2 # f) = Inl KeyError"
    by simp_all
  from config_line_unknown_stays[OF assms(3), of ops t l] show ?case
  proof
    assume "config_line ops t st l = Inl KeyError"
    with nm show ?thesis by simp
  next
    assume "config_line ops t st l = Inr st"
    with nm ih show ?thesis by simp
  qed
qed

lemma unknown_root_energy_key_error:
  assumes "py_in root_marker line" and "root_index line = Inr r"
    and "roots st r = None" and "energy_value ops next_line \<noteq> None"
  shows "parse_loop ops t st (line # next_line # f) = Inl KeyError"
  using assms energy_capture_unknown[where rs = "roots st" and r = r and ops = ops
                                       and nl = next_line]
  by (auto split: option.splits)

lemma unknown_root_key_error:
  assumes m: "py_in root_marker line" and ri: "root_index line = Inr r" and pos: "0 < r"
    and un: "roots st r = None"
    and mid: "\<forall>l\<in>set mid. \<not> py_in root_marker l" and nm: "\<not> py_in root_marker l2"
    and len: "length conf = 14" and ad: "admits ops t l2 conf w"
  shows "parse_loop ops t st (line # next_line # mid @ l2 # f) = Inl KeyError"
proof (cases "energy_value ops next_line")
  case (Some e)
  then have "energy_value ops next_line \<noteq> None" by simp
  from unknown_root_energy_key_error[OF m ri un this] show ?thesis .
next
  case None
  let ?st = "st\<lparr>roots := roots st, current_root := r, config_count := 0,
                in_config_section := True\<rparr>"
  have ec: "energy_capture ops next_line r (roots st) = Inr (roots st)"
    using energy_capture_unknown[where rs = "roots st" and r = r and ops = ops
                                   and nl = next_line, OF un] None by simp
  have "parse_loop ops t ?st (mid @ l2 # f) = Inl KeyError"
    by (rule unknown_block_key_error[OF _ _ _ mid nm len ad]) (use pos un in simp_all)
  with m ri ec show ?thesis by simp
qed

lemma config_line_known:
  assumes "in_config_section st \<longrightarrow> 0 < current_root st \<longrightarrow> current_root st \<in> dom (roots st)"
  shows "config_line ops t st line \<noteq> Inl KeyError"
  using assms
  by (auto simp: config_line_def split: option.splits prod.splits)

lemma energy_capture_known:
  "r \<in> dom rs \<Longrightarrow> energy_capture ops nl r rs \<noteq> Inl KeyError"
  by (auto simp: energy_capture_def split: option.splits)

lemma parse_loop_known_roots:
  "\<forall>line\<in>set ls. py_in root_marker line \<longrightarrow>
       (case root_index line of Inl e \<Rightarrow> True | Inr r \<Rightarrow> r \<in> dom (roots st)) \<Longrightarrow>
   in_config_section st \<longrightarrow> 0 < current_root st \<longrightarrow> current_root st \<in> dom (roots st) \<Longrightarrow>
   parse_loop ops t st ls \<noteq> Inl KeyError"
proof (induction ops t st ls rule: parse_loop.induct)
  case (1 ops threshold st)
  then show ?case by simp
next
  case (2 ops threshold st line f)
  note all = "2.prems"(1) and inv = "2.prems"(2)
  show ?case
  proof (cases "py_in root_marker line")
    case True
    show ?thesis
    proof (cases "root_index line")
      case (Inl e)
      with True have "e = ValueError"
        by (auto simp: root_index_marker split: option.splits)
      with True Inl show ?thesis by simp
    next
      case (Inr r0)
      with all True have known: "r0 \<in> dom (roots st)" by simp
      show ?thesis
      proof (cases f)
        case Nil
        with True Inr show ?thesis by simp
      next
        case (Cons next_line f')
        show ?thesis
        proof (cases "energy_capture ops next_line r0 (roots st)")
          case (Inl e)
          with energy_capture_known[OF known, of ops next_line] True Inr Cons
          show ?thesis by auto
        next
          case ec: (Inr rs)
          let ?st = "st\<lparr>roots := rs, current_root := r0, config_count := 0,
                        in_config_section := True\<rparr>"
          from energy_capture_dom[OF ec] have d: "dom rs = dom (roots st)" .
          have a: "\<forall>line\<in>set f'. py_in root_marker line \<longrightarrow>
                     (case root_index line of Inl e \<Rightarrow> True | Inr r \<Rightarrow> r \<in> dom (roots ?st))"
            using all Cons d by (auto split: sum.splits)
          have b: "in_config_section ?st \<longrightarrow> 0 < current_root ?st \<longrightarrow>
                     current_root ?st \<in> dom (roots ?st)"
            using known d by simp
          from "2.IH"(1)[OF True Inr Cons ec a b] True Inr Cons ec
          show ?thesis by simp
        qed
      qed
    qed
  next
    case False
    show ?thesis
    proof (cases "config_line ops threshold st line")
      case (Inl e)
      with config_line_known[OF inv, of ops threshold line] False show ?thesis by auto
    next
      case cl: (Inr st1)
      from config_line_dom[OF cl] config_line_section[OF cl]
      have d: "dom (roots st1) = dom (roots st)"
        and s: "in_config_section st1 = in_config_section st"
               "current_root st1 = current_root st" by simp_all
      have a: "\<forall>line\<in>set f. py_in root_marker line \<longrightarrow>
                 (case root_index line of Inl e \<Rightarrow> True | Inr r \<Rightarrow> r \<in> dom (roots st1))"
        using all d by (auto split: sum.splits)
      have b: "in_config_section st1 \<longrightarrow> 0 < current_root st1 \<longrightarrow>
                 current_root st1 \<in> dom (roots st1)"
        using inv d s by simp
      from "2.IH"(2)[OF False cl a b] False cl show ?thesis by simp
    qed
  qed
qed

lemma dom_init_roots: "dom (init_roots n :: 'f root_table) = {1..n}"
  by (auto simp: init_roots_def split: if_splits)

text \<open>
  C4 (amended). The claim has a record created lazily for a root-start line whose root
  exceeds \<^verbatim>\<open>num_roots\<close>. The code never adds a key to \<^verbatim>\<open>roots\<close>. As amended:
  (1) after a parse that completes, the roots with a record are exactly
  \<open>1 .. num_roots\<close>, whatever root-start lines the log has; (2) when the loop meets a
  root-start line for a root without a record and the following line gives an energy,
  the pass fails there with \<^verbatim>\<open>KeyError\<close>; (3) when the loop meets a root-start line
  for a positive root without a record, then whatever the following line is, and
  whatever lines without the marker come next (the header of the table, lines that do
  not pass the threshold), the pass has failed with \<^verbatim>\<open>KeyError\<close> by the first
  configuration line that is admitted; (4) when every root-start line of the log names
  a root within \<open>1 .. num_roots\<close>, however few of them there are, the pass does not
  fail with \<^verbatim>\<open>KeyError\<close>.
\<close>

theorem records_are_not_created:
  "(failure_of (parse_ras_weights ops log_file t) = None \<longrightarrow>
      snd (detect_num_roots log_file) = Some n \<longrightarrow>
      (record_of (parse_ras_weights ops log_file t) r \<noteq> None) = (1 \<le> r \<and> r \<le> n)) \<and>
   (py_in root_marker line \<longrightarrow> root_index line = Inr r \<longrightarrow> roots st r = None \<longrightarrow>
      energy_value ops next_line \<noteq> None \<longrightarrow>
      parse_loop ops t st (line # next_line # f) = Inl KeyError) \<and>
   (py_in root_marker line \<longrightarrow> root_index line = Inr r \<longrightarrow> 0 < r \<longrightarrow> roots st r = None \<longrightarrow>
      (\<forall>l\<in>set mid. \<not> py_in root_marker l) \<longrightarrow> \<not> py_in root_marker l2 \<longrightarrow>
      length conf = 14 \<longrightarrow> admits ops t l2 conf w \<longrightarrow>
      parse_loop ops t st (line # next_line # mid @ l2 # f) = Inl KeyError) \<and>
   (snd (detect_num_roots log_file) = Some n \<longrightarrow>
      (\<forall>line\<in>set log_file. py_in root_marker line \<longrightarrow>
         (case root_index line of Inl e \<Rightarrow> True | Inr r' \<Rightarrow> 1 \<le> r' \<and> r' \<le> n)) \<longrightarrow>
      failure_of (parse_ras_weights ops log_file t) \<noteq> Some KeyError)"
proof (intro conjI impI)
  assume ok: "failure_of (parse_ras_weights ops log_file t) = None"
    and d: "snd (detect_num_roots log_file) = Some n"
  from ok d obtain st' where
    lp: "parse_loop ops t (init_state n) log_file = Inr st'"
    and res: "parse_ras_weights ops log_file t = Inr (roots st')"
    by (auto simp: failure_of_def parse_ras_weights_def split: sum.splits)
  from parse_loop_dom[OF lp] have "dom (roots st') = {1..n}"
    by (simp add: init_state_def dom_init_roots)
  then have "(roots st' r \<noteq> None) = (1 \<le> r \<and> r \<le> n)"
    by (auto simp: dom_def)
  then show "(record_of (parse_ras_weights ops log_file t) r \<noteq> None) = (1 \<le> r \<and> r \<le> n)"
    by (simp add: res record_of_def)
next
  assume "py_in root_marker line" "root_index line = Inr r" "roots st r = None"
    "energy_value ops next_line \<noteq> None"
  then show "parse_loop ops t st (line # next_line # f) = Inl KeyError"
    by (rule unknown_root_energy_key_error)
next
  assume "py_in root_marker line" "root_index line = Inr r" "0 < r" "roots st r = None"
    "\<forall>l\<in>set mid. \<not> py_in root_marker l" "\<not> py_in root_marker l2"
    "length conf = 14" "admits ops t l2 conf w"
  then show "parse_loop ops t st (line # next_line # mid @ l2 # f) = Inl KeyError"
    by (rule unknown_root_key_error)
next
  assume d: "snd (detect_num_roots log_file) = Some n"
    and all: "\<forall>line\<in>set log_file. py_in root_marker line \<longrightarrow>
         (case root_index line of Inl e \<Rightarrow> True | Inr r' \<Rightarrow> 1 \<le> r' \<and> r' \<le> n)"
  have a: "\<forall>line\<in>set log_file. py_in root_marker line \<longrightarrow>
       (case root_index line of Inl e \<Rightarrow> True
        | Inr r \<Rightarrow> r \<in> dom (roots (init_state n :: 'a pstate)))"
    using all by (auto simp: init_state_def dom_init_roots split: sum.splits)
  have b: "in_config_section (init_state n :: 'a pstate) \<longrightarrow>
       0 < current_root (init_state n :: 'a pstate) \<longrightarrow>
       current_root (init_state n :: 'a pstate) \<in> dom (roots (init_state n :: 'a pstate))"
    by (simp add: init_state_def)
  from parse_loop_known_roots[OF a b, of ops t]
  show "failure_of (parse_ras_weights ops log_file t) \<noteq> Some KeyError"
    using d by (auto simp: failure_of_def parse_ras_weights_def split: sum.splits)
qed

theorem records_are_not_created_witness:
  "record_of (parse_ras_weights dec_ops log_one_root (1/5)) 1 \<noteq> None \<and>
   record_of (parse_ras_weights dec_ops log_one_root (1/5)) 2 = None \<and>
   parse_loop dec_ops (1/5) (init_state 1) (tl log_extra_root_energy) = Inl KeyError \<and>
   parse_loop dec_ops (1/5) (init_state 1) (tl log_extra_root_header) = Inl KeyError \<and>
   failure_of (parse_ras_weights dec_ops log_extra_root_energy (1/5)) = Some KeyError \<and>
   failure_of (parse_ras_weights dec_ops log_extra_root_header (1/5)) = Some KeyError \<and>
   failure_of (parse_ras_weights dec_ops log_one_root (1/5)) \<noteq> Some KeyError"
proof -
  let ?line = "''printout of CI-coefficients larger than  0.05 for root  2'' @ [CHR 0x0A]"
  let ?en = "''energy=    -1.5'' @ [CHR 0x0A]"
  let ?nl = "''no energy here'' @ [CHR 0x0A]"
  let ?h = "''  conf/sym  1111111 22222     Coeff  Weight'' @ [CHR 0x0A]"
  let ?c1 = "''  1  22222220u00000  -0.950 0.902'' @ [CHR 0x0A]"
  have ok: "failure_of (parse_ras_weights dec_ops log_one_root (1/5)) = None" by code_simp
  have d: "snd (detect_num_roots log_one_root) = Some 1" by code_simp
  note A = records_are_not_created[where ops = dec_ops and log_file = log_one_root
             and t = "1/5" and n = 1, THEN conjunct1, rule_format, OF ok d]
  have a1: "record_of (parse_ras_weights dec_ops log_one_root (1/5)) 1 \<noteq> None"
    using A[of 1] by simp
  have a2: "record_of (parse_ras_weights dec_ops log_one_root (1/5)) 2 = None"
    using A[of 2] by simp
  have e1: "tl log_extra_root_energy = ?line # ?en # []"
    by (simp add: log_extra_root_energy_def file_lines_def)
  have e2: "tl log_extra_root_header = ?line # ?nl # [?h] @ ?c1 # []"
    by (simp add: log_extra_root_header_def file_lines_def)
  have m: "py_in root_marker ?line" by code_simp
  have ri: "root_index ?line = Inr 2" by code_simp
  have un: "roots (init_state 1 :: rat pstate) 2 = None"
    by (simp add: init_state_def init_roots_def)
  have "energy_value dec_ops ?en = Some (- (3/2))" by code_simp
  then have ev: "energy_value dec_ops ?en \<noteq> None" by simp
  have b1: "parse_loop dec_ops (1/5) (init_state 1) (?line # ?en # []) = Inl KeyError"
    by (rule records_are_not_created[where ops = dec_ops and t = "1/5" and line = ?line
            and r = 2 and st = "init_state 1" and next_line = ?en and f = "[]",
            THEN conjunct2, THEN conjunct1, rule_format, OF m ri un ev])
  have "\<not> py_in root_marker ?h" by code_simp
  then have mid: "\<forall>l\<in>set [?h]. \<not> py_in root_marker l" by simp
  have nm: "\<not> py_in root_marker ?c1" by code_simp
  have re: "re_config (py_strip ?c1) = Some (''1'', ''22222220u00000'', ''-0.950'', ''0.902'')"
    by code_simp
  have f3: "py_float dec_ops ''-0.950'' = Some (- (19/20))" by code_simp
  have f4: "py_float dec_ops ''0.902'' = Some (451/500)" by code_simp
  have "re_config (py_strip ?c1) = Some (''1'', ''22222220u00000'', ''-0.950'', ''0.902'') \<and>
        py_float dec_ops ''-0.950'' = Some (- (19/20)) \<and>
        py_float dec_ops ''0.902'' = Some (451/500) \<and>
        f_ge dec_ops (f_abs dec_ops (- (19/20))) (1/5) \<and>
        451/5 = f_mul100 dec_ops (451/500)"
    using re f3 f4 by (simp add: dec_ops_def)
  then have ad: "admits dec_ops (1/5) ?c1 ''22222220u00000'' (451/5)"
    by blast
  have pos: "(0::int) < 2" by simp
  have len: "length ''22222220u00000'' = 14" by simp
  have b2: "parse_loop dec_ops (1/5) (init_state 1) (?line # ?nl # [?h] @ ?c1 # []) = Inl KeyError"
    using records_are_not_created[where ops = dec_ops and t = "1/5" and line = ?line
            and r = 2 and st = "init_state 1" and mid = "[?h]" and ?l2.0 = ?c1
            and conf = "''22222220u00000''" and w = "451/5" and next_line = ?nl
            and f = "[]", THEN conjunct2, THEN conjunct2, THEN conjunct1]
          m ri pos un mid nm len ad
    by blast
  have k1: "failure_of (parse_ras_weights dec_ops log_extra_root_energy (1/5)) = Some KeyError"
    by code_simp
  have k2: "failure_of (parse_ras_weights dec_ops log_extra_root_header (1/5)) = Some KeyError"
    by code_simp
  have "list_all (\<lambda>line. \<not> py_in root_marker line \<or>
           (case root_index line of Inl e \<Rightarrow> True | Inr r' \<Rightarrow> 1 \<le> r' \<and> r' \<le> 1)) log_one_root"
    by code_simp
  then have all: "\<forall>line\<in>set log_one_root. py_in root_marker line \<longrightarrow>
           (case root_index line of Inl e \<Rightarrow> True | Inr r' \<Rightarrow> 1 \<le> r' \<and> r' \<le> 1)"
    by (auto simp: list_all_iff)
  have c: "failure_of (parse_ras_weights dec_ops log_one_root (1/5)) \<noteq> Some KeyError"
    using records_are_not_created[where ops = dec_ops and log_file = log_one_root
            and t = "1/5" and n = 1, THEN conjunct2, THEN conjunct2, THEN conjunct2] d all
    by blast
  show ?thesis unfolding e1 e2 using a1 a2 b1 b2 k1 k2 c by blast
qed

text \<open>
  C4 as stated fails: \<open>log_extra_root\<close> announces one root and has a block for root 2
  with a configuration line above the threshold. No record is created for root 2: the
  pass fails with \<^verbatim>\<open>KeyError\<close>.
\<close>

theorem extra_root_key_error:
  "snd (detect_num_roots log_extra_root) = Some 1 \<and>
   failure_of (parse_ras_weights dec_ops log_extra_root (1/5)) = Some KeyError"
  by code_simp

subsection \<open>The line after a root-start line\<close>




end
